theory Spec2Isabelle
  imports Main "HOL-Library.Word" "HOL-Library.Multiset"
begin

section \<open>liblw: the buffered asynchronous stream (\<open>source/lw/event/BasicStream.cpp\<close>)\<close>

text \<open>
  A shallow embedding of \<open>BasicStream\<close>. The stream's shared \<open>_State\<close> is a record that
  every function takes and returns; what the code does to its collaborators (the calls it
  makes on the libuv handle, the invocations of the consumer's \<open>read_callback\<close>) is
  appended to two logs kept beside the state. The status a libuv call returns is an
  argument of the function that makes the call. An exception is the \<open>Inl\<close> of a sum, and
  the state is returned with it, since the code mutates the state before it throws.
\<close>

subsection \<open>Machine types\<close>

text \<open>
  \<open>std::size_t\<close> is 64 bits wide: the data callback's size parameter is written
  \<open>long int\<close> where libuv declares \<open>ssize_t\<close>, which fixes an LP64 target. Statuses and
  sizes that libuv passes in (\<open>int\<close>, \<open>long int\<close>) are the integers they denote; their
  conversion to \<open>std::size_t\<close> is \<open>word_of_int\<close>.
\<close>

type_synonym size_t = "64 word"
type_synonym addr = nat

text \<open>libuv's end-of-file status (\<open>uv-errno.h\<close>).\<close>

definition UV_EOF :: int where
  "UV_EOF = - 4095"

text \<open>
  What the code throws. \<open>LW_UV_ERROR(StreamError, res)\<close> builds a \<open>StreamError\<close> from the
  reactor's status; \<open>bad_function_call\<close> is what calling an empty \<open>std::function\<close> throws.
\<close>

datatype error = StreamError int | bad_function_call

subsection \<open>Buffers\<close>

text \<open>
  A \<open>memory::Buffer\<close> is known here by the address of its storage and its size; no
  function of this file reads or writes the bytes.
\<close>

record Buffer =
  data :: addr
  size_buf :: size_t

text \<open>
  Modelled from the spec: the constructor \<open>memory::Buffer(capacity)\<close> of
  \<open>lw/memory/Buffer.hpp\<close>, "created empty-initialized with a requested capacity". The
  address the allocator returns for the new storage is the first argument.
\<close>

definition Buffer_new :: "addr \<Rightarrow> size_t \<Rightarrow> Buffer" where
  "Buffer_new a capacity = \<lparr>data = a, size_buf = capacity\<rparr>"

text \<open>
  Modelled from the spec: the constructor \<open>memory::Buffer(ptr, size)\<close> of
  \<open>lw/memory/Buffer.hpp\<close>, "a Buffer view wrapping exactly the written region of the
  underlying storage".
\<close>

definition Buffer_view :: "addr \<Rightarrow> size_t \<Rightarrow> Buffer" where
  "Buffer_view ptr n = \<lparr>data = ptr, size_buf = n\<rparr>"

text \<open>libuv's \<open>uv_buf_t\<close> and \<open>uv_buf_init(char* base, unsigned int len)\<close>.\<close>

record uv_buf_t =
  base :: addr
  len :: size_t

definition uv_buf_init :: "addr \<Rightarrow> size_t \<Rightarrow> uv_buf_t" where
  "uv_buf_init b n = \<lparr>base = b, len = ucast (ucast n :: 32 word)\<rparr>"

subsection \<open>Promises\<close>

text \<open>
  Modelled from the spec: \<open>Promise\<close> and \<open>Future\<close> of \<open>lw/event/Promise.hpp\<close> and
  \<open>Promise.impl.hpp\<close>. "A shared single-resolution slot: starts pending; transitions
  exactly once to resolved(value) or rejected(error)", "plus zero-or-one registered
  continuation". The promise and its future share this one record: \<open>slot\<close> is the slot,
  \<open>continuation\<close> the function attached through \<open>then\<close>, \<open>chained\<close> the slot of the future
  that \<open>then\<close> returned. \<open>settled\<close> is a history variable: every result the slot has
  taken, oldest first; \<open>reset\<close> empties the slot and not the history.
\<close>

datatype 'a slot = Pending | Resolved 'a | Rejected error

record 'a Promise =
  slot :: "'a slot"
  continuation :: "('a \<Rightarrow> 'a) option"
  chained :: "'a slot"
  settled :: "'a slot list"

definition Promise_new :: "'a Promise" where
  "Promise_new = \<lparr>slot = Pending, continuation = None, chained = Pending, settled = []\<rparr>"

text \<open>
  "resolve(value): transitions slot to resolved; if a continuation is attached, invoke it
  synchronously with value; otherwise buffer the value". On a slot that is not pending the
  call is a no-op, the first of the two behaviours the spec allows.
\<close>

definition Promise_resolve :: "'a Promise \<Rightarrow> 'a \<Rightarrow> 'a Promise" where
  "Promise_resolve p v =
     (if slot p \<noteq> Pending then p
      else p\<lparr>slot := Resolved v,
             chained := (case continuation p of None \<Rightarrow> chained p | Some f \<Rightarrow> Resolved (f v)),
             settled := settled p @ [Resolved v]\<rparr>)"

text \<open>
  "reject(Error): transitions slot to rejected; propagates to any attached continuation's
  error path".
\<close>

definition Promise_reject :: "'a Promise \<Rightarrow> error \<Rightarrow> 'a Promise" where
  "Promise_reject p e =
     (if slot p \<noteq> Pending then p
      else p\<lparr>slot := Rejected e,
             chained := (case continuation p of None \<Rightarrow> chained p | Some f \<Rightarrow> Rejected e),
             settled := settled p @ [Rejected e]\<rparr>)"

text \<open>"reset(): returns slot to pending, discarding any buffered result".\<close>

definition Promise_reset :: "'a Promise \<Rightarrow> 'a Promise" where
  "Promise_reset p = p\<lparr>slot := Pending\<rparr>"

text \<open>"Future: the read side of a Promise": the same shared record.\<close>

definition Promise_future :: "'a Promise \<Rightarrow> 'a Promise" where
  "Promise_future p = p"

text \<open>
  "then(onValue): registers a continuation; returns a new Future", "invoked with the
  resolved value (or whose error is propagated) either immediately (if already resolved)
  or upon resolution". The future returned is the \<open>chained\<close> slot of the result.
\<close>

definition Future_then :: "('a \<Rightarrow> 'a) \<Rightarrow> 'a Promise \<Rightarrow> 'a Promise" where
  "Future_then f p =
     p\<lparr>continuation := Some f,
       chained := (case slot p of
                     Pending \<Rightarrow> Pending
                   | Resolved v \<Rightarrow> Resolved (f v)
                   | Rejected e \<Rightarrow> Rejected e)\<rparr>"

subsection \<open>The stream's state\<close>

text \<open>
  The consumer's per-chunk function is opaque to this layer: a \<open>callback\<close> names it, and an
  invocation is logged with the view it was given. It is taken not to call back into the
  stream while it runs.
\<close>

type_synonym callback = nat

text \<open>
  \<open>BasicStream::_State\<close>. Its declaration is in \<open>lw/event/BasicStream.hpp\<close>; the fields are
  those the code of this file uses, with the types it uses them at.
\<close>

record StreamState =
  handle :: addr
  read_count :: size_t
  read_callback :: "callback option"
  read_promise :: "size_t Promise"
  idle_read_buffers :: "Buffer list"
  active_read_buffers :: "Buffer list"

text \<open>The calls this file makes on the reactor, with the handle and the buffer passed.\<close>

datatype uv_call = uv_read_start addr | uv_read_stop addr | uv_write addr uv_buf_t

text \<open>
  A stream with its surroundings: \<open>m_state\<close> is the shared state, \<open>reactor\<close> the libuv calls
  made so far, \<open>consumer\<close> the invocations of \<open>read_callback\<close> so far.
\<close>

record World =
  m_state :: StreamState
  reactor :: "uv_call list"
  consumer :: "(callback \<times> Buffer) list"

text \<open>
  The constructor \<open>BasicStream(uv_stream_s* handle)\<close> with \<open>BasicStream::state\<close>: a fresh
  \<open>_State\<close> on the handle, its counter zeroed and its callback null.
\<close>

definition BasicStream :: "addr \<Rightarrow> World" where
  "BasicStream h =
     \<lparr>m_state = \<lparr>handle = h, read_count = 0, read_callback = None,
                  read_promise = Promise_new,
                  idle_read_buffers = [], active_read_buffers = []\<rparr>,
      reactor = [], consumer = []\<rparr>"

subsection \<open>Ending a read batch\<close>

text \<open>\<open>BasicStream::_stop_read\<close>.\<close>

definition priv_stop_read :: "StreamState \<Rightarrow> StreamState" where
  "priv_stop_read s =
     (let s1 = s\<lparr>read_promise := Promise_resolve (read_promise s) (read_count s)\<rparr>;
          s2 = s1\<lparr>read_promise := Promise_reset (read_promise s1)\<rparr>
      in s2\<lparr>read_count := 0\<rparr>)"

text \<open>\<open>BasicStream::stop_read\<close>; \<open>res\<close> is what \<open>uv_read_stop\<close> returns.\<close>

definition stop_read :: "int \<Rightarrow> World \<Rightarrow> (error + unit) \<times> World" where
  "stop_read res w =
     (let w1 = w\<lparr>reactor := reactor w @ [uv_read_stop (handle (m_state w))]\<rparr>;
          w2 = w1\<lparr>m_state := (m_state w1)\<lparr>read_callback := None\<rparr>\<rparr>
      in if res < 0 then (Inl (StreamError res), w2)
         else (Inr (), w2\<lparr>m_state := priv_stop_read (m_state w2)\<rparr>))"

subsection \<open>The buffer pool\<close>

text \<open>
  \<open>BasicStream::_next_read_buffer\<close>; \<open>fresh\<close> is the address the allocator returns if a
  buffer is allocated. \<open>splice\<close> moves the front of \<open>idle\<close> to the back of \<open>active\<close>.
\<close>

definition priv_next_read_buffer :: "addr \<Rightarrow> StreamState \<Rightarrow> Buffer \<times> StreamState" where
  "priv_next_read_buffer fresh s =
     (let s1 = (if length (idle_read_buffers s) = 0
                then s\<lparr>idle_read_buffers := idle_read_buffers s @ [Buffer_new fresh 1024]\<rparr>
                else s);
          s2 = s1\<lparr>active_read_buffers := active_read_buffers s1 @ [hd (idle_read_buffers s1)],
                  idle_read_buffers := tl (idle_read_buffers s1)\<rparr>
      in (last (active_read_buffers s2), s2))"

text \<open>
  The loop of \<open>BasicStream::_release_read_buffer\<close>: \<open>seen\<close> are the active buffers the
  iterator has passed, the list those from the iterator on. The first buffer whose storage
  starts at \<open>b\<close> is spliced to the back of \<open>idle\<close> and the loop ends.
\<close>

fun release_scan :: "addr \<Rightarrow> Buffer list \<Rightarrow> Buffer list \<Rightarrow> StreamState \<Rightarrow> StreamState" where
  "release_scan b seen [] s = s"
| "release_scan b seen (it # rest) s =
     (if data it = b
      then s\<lparr>idle_read_buffers := idle_read_buffers s @ [it],
             active_read_buffers := seen @ rest\<rparr>
      else release_scan b (seen @ [it]) rest s)"

text \<open>\<open>BasicStream::_release_read_buffer\<close>.\<close>

definition priv_release_read_buffer :: "addr \<Rightarrow> StreamState \<Rightarrow> StreamState" where
  "priv_release_read_buffer b s = release_scan b [] (active_read_buffers s) s"

subsection \<open>Reading\<close>

text \<open>
  \<open>BasicStream::_read\<close>; \<open>res\<close> is what \<open>uv_read_start\<close> returns. The two lambdas it
  registers are \<open>alloc_cb\<close> and \<open>read_cb\<close> below. Each builds a \<open>BasicStream\<close> on the state
  it finds in the handle; that constructor is declared in \<open>lw/event/BasicStream.hpp\<close>
  and, a stream being "a lightweight, copyable handle to a StreamState", is taken to
  leave the state as it is.
\<close>

definition priv_read :: "int \<Rightarrow> World \<Rightarrow> (error + size_t Promise) \<times> World" where
  "priv_read res w =
     (let w1 = w\<lparr>reactor := reactor w @ [uv_read_start (handle (m_state w))]\<rparr>
      in if res < 0
         then (Inl (StreamError res), w1\<lparr>m_state := (m_state w1)\<lparr>read_callback := None\<rparr>\<rparr>)
         else (Inr (Promise_future (read_promise (m_state w1))), w1))"

text \<open>The allocation callback: the first lambda of \<open>_read\<close>.\<close>

definition alloc_cb :: "addr \<Rightarrow> World \<Rightarrow> uv_buf_t \<times> World" where
  "alloc_cb fresh w =
     (case priv_next_read_buffer fresh (m_state w) of
        (buffer, s) \<Rightarrow> (uv_buf_init (data buffer) (size_buf buffer), w\<lparr>m_state := s\<rparr>))"

text \<open>
  The data callback: the second lambda of \<open>_read\<close>. \<open>nread\<close> is its parameter \<open>size\<close>
  under libuv's name for it, \<open>buffer\<close> the \<open>uv_buf_t\<close> libuv read into. The branch is
  taken on \<open>size == UV_EOF\<close> alone. \<open>state.reset()\<close> in the end-of-file branch drops the
  lambda's own reference to the state and changes nothing in it. \<open>read_count += size\<close>
  converts \<open>size\<close> to \<open>std::size_t\<close> and wraps; calling a null \<open>read_callback\<close> throws.
\<close>

definition read_cb :: "int \<Rightarrow> uv_buf_t \<Rightarrow> World \<Rightarrow> (error + unit) \<times> World" where
  "read_cb nread buffer w =
     (if nread = UV_EOF
      then (Inr (), w\<lparr>m_state := priv_stop_read (m_state w)\<rparr>)
      else
        (let state = (m_state w)\<lparr>read_count := read_count (m_state w) + word_of_int nread\<rparr>;
             view = Buffer_view (base buffer) (word_of_int nread)
         in case read_callback state of
              None \<Rightarrow> (Inl bad_function_call, w\<lparr>m_state := state\<rparr>)
            | Some f \<Rightarrow> (Inr (), w\<lparr>m_state := state, consumer := consumer w @ [(f, view)]\<rparr>)))"

text \<open>The deleter of the view handed to \<open>read_callback\<close>: it runs when the view dies.\<close>

definition view_deleter :: "Buffer \<Rightarrow> World \<Rightarrow> World" where
  "view_deleter buffer w = w\<lparr>m_state := priv_release_read_buffer (data buffer) (m_state w)\<rparr>"

text \<open>
  The reactor delivering chunks one after the other; an exception leaving the callback
  ends the run.
\<close>

fun read_cbs :: "(int \<times> uv_buf_t) list \<Rightarrow> World \<Rightarrow> (error + unit) \<times> World" where
  "read_cbs [] w = (Inr (), w)"
| "read_cbs ((nread, buffer) # rest) w =
     (case read_cb nread buffer w of
        (Inl e, w') \<Rightarrow> (Inl e, w')
      | (Inr u, w') \<Rightarrow> read_cbs rest w')"

subsection \<open>Writing\<close>

text \<open>\<open>_details::WriteRequest\<close>; the \<open>uv_write_t\<close> is known by the buffer it carries.\<close>

record WriteRequest =
  request :: uv_buf_t
  promise :: "size_t Promise"
  size_req :: size_t

text \<open>The completion callback: the lambda passed to \<open>uv_write\<close>.\<close>

definition write_cb :: "WriteRequest \<Rightarrow> int \<Rightarrow> WriteRequest" where
  "write_cb write_req status =
     (if status < 0
      then write_req\<lparr>promise := Promise_reject (promise write_req) (StreamError status)\<rparr>
      else write_req\<lparr>promise := Promise_resolve (promise write_req) (size_req write_req)\<rparr>)"

text \<open>
  \<open>BasicStream::write\<close> (\<open>write\<close> alone is a keyword of Isar); \<open>res\<close> is what \<open>uv_write\<close>
  returns. The request returned is the one the reactor holds, and the future the caller
  gets is the \<open>chained\<close> slot of its promise.
\<close>

definition stream_write :: "Buffer \<Rightarrow> int \<Rightarrow> World \<Rightarrow> (error + WriteRequest) \<times> World" where
  "stream_write buffer res w =
     (let buffers = uv_buf_init (data buffer) (size_buf buffer);
          write_req = \<lparr>request = buffers, promise = Promise_new, size_req = size_buf buffer\<rparr>;
          w1 = w\<lparr>reactor := reactor w @ [uv_write (handle (m_state w)) buffers]\<rparr>
      in if res < 0 then (Inl (StreamError res), w1)
         else (Inr (write_req\<lparr>promise :=
                 Future_then (\<lambda>bytes_written. bytes_written)
                   (Promise_future (promise write_req))\<rparr>), w1))"

definition returned_future :: "WriteRequest \<Rightarrow> size_t slot" where
  "returned_future write_req = chained (promise write_req)"

subsection \<open>Runs of the buffer pool\<close>

text \<open>
  The pool is driven by the allocation callback (an acquire) and by dying views (a
  release). An acquire carries the address the allocator would return for new storage.
\<close>

datatype pool_op = Acquire addr | Release addr

fun pool_step :: "StreamState \<Rightarrow> pool_op \<Rightarrow> StreamState" where
  "pool_step s (Acquire fresh) = snd (priv_next_read_buffer fresh s)"
| "pool_step s (Release b) = priv_release_read_buffer b s"

definition pool_run :: "StreamState \<Rightarrow> pool_op list \<Rightarrow> StreamState" where
  "pool_run s ops = foldl pool_step s ops"

text \<open>All the buffers of the pool: the idle ones, then the active ones.\<close>

definition pool :: "StreamState \<Rightarrow> Buffer list" where
  "pool s = idle_read_buffers s @ active_read_buffers s"

text \<open>
  A buffer is its storage, so "every buffer is in exactly one of the two collections" is:
  no storage address occurs twice in \<open>idle\<close> followed by \<open>active\<close>.
\<close>

definition pool_inv :: "StreamState \<Rightarrow> bool" where
  "pool_inv s = distinct (map data (pool s))"

text \<open>
  What the pool relies on from the allocator: storage it returns is not the storage of a
  buffer the pool holds. It is asked of an acquire only when that acquire allocates.
\<close>

fun allocator_fresh :: "StreamState \<Rightarrow> pool_op list \<Rightarrow> bool" where
  "allocator_fresh s [] = True"
| "allocator_fresh s (Acquire fresh # ops) =
     ((idle_read_buffers s \<noteq> [] \<or> fresh \<notin> data ` set (pool s))
      \<and> allocator_fresh (pool_step s (Acquire fresh)) ops)"
| "allocator_fresh s (Release b # ops) = allocator_fresh (pool_step s (Release b)) ops"

text \<open>The buffers a run allocates, in order.\<close>

fun allocated :: "StreamState \<Rightarrow> pool_op list \<Rightarrow> Buffer list" where
  "allocated s [] = []"
| "allocated s (Acquire fresh # ops) =
     (if idle_read_buffers s = [] then [Buffer_new fresh 1024] else [])
     @ allocated (pool_step s (Acquire fresh)) ops"
| "allocated s (Release b # ops) = allocated (pool_step s (Release b)) ops"

subsection \<open>Read batches\<close>

text \<open>
  A batch is a run of data callbacks and then its end: end-of-file delivered to the data
  callback, or the caller's \<open>stop_read\<close> with the status the reactor answers.
\<close>

datatype ending = Eof uv_buf_t | Stopped int

fun end_batch :: "ending \<Rightarrow> World \<Rightarrow> (error + unit) \<times> World" where
  "end_batch (Eof buffer) w = read_cb UV_EOF buffer w"
| "end_batch (Stopped res) w = stop_read res w"

fun successful :: "ending \<Rightarrow> bool" where
  "successful (Eof buffer) = True"
| "successful (Stopped res) = (0 \<le> res)"

definition read_batch :: "(int \<times> uv_buf_t) list \<Rightarrow> ending \<Rightarrow> World \<Rightarrow> (error + unit) \<times> World"
  where
  "read_batch chunks e w =
     (case read_cbs chunks w of
        (Inl err, w') \<Rightarrow> (Inl err, w')
      | (Inr u, w') \<Rightarrow> end_batch e w')"

definition positive_sizes :: "(int \<times> uv_buf_t) list \<Rightarrow> bool" where
  "positive_sizes chunks = list_all (\<lambda>(nread, buffer). 0 < nread) chunks"

text \<open>The sum of the sizes of a run of chunks, as an integer.\<close>

definition total :: "(int \<times> uv_buf_t) list \<Rightarrow> int" where
  "total chunks = sum_list (map fst chunks)"

text \<open>What the read future has been resolved or rejected with so far, oldest first.\<close>

definition read_results :: "World \<Rightarrow> size_t slot list" where
  "read_results w = settled (read_promise (m_state w))"

subsection \<open>A stream in the middle of a read\<close>

text \<open>
  The state the theorems below are tried on: a stream on handle 7 whose consumer has
  registered callback 1 and which has counted 5 bytes in the current batch.
\<close>

definition example_stream :: World where
  "example_stream =
     (BasicStream 7)\<lparr>m_state :=
        (m_state (BasicStream 7))\<lparr>read_callback := Some 1, read_count := 5\<rparr>\<rparr>"

text \<open>The same stream when its batch begins: the callback registered, nothing counted.\<close>

definition example_start :: World where
  "example_start =
     (BasicStream 7)\<lparr>m_state := (m_state (BasicStream 7))\<lparr>read_callback := Some 1\<rparr>\<rparr>"

definition example_buf :: uv_buf_t where
  "example_buf = uv_buf_init 4096 1024"

section \<open>Stopping and starting a read\<close>

text \<open>
  C9. Every \<open>stop_read\<close> passes the stop on to the reactor (one \<open>uv_read_stop\<close> on the
  stream's handle is added to the calls made) and leaves \<open>read_callback\<close> null, whatever
  the reactor answers; it throws a \<open>StreamError\<close> built from the status exactly when the
  status is negative, and the callback is null in that case too.
\<close>

theorem stop_read_propagates_and_clears:
  "reactor (snd (stop_read res w)) = reactor w @ [uv_read_stop (handle (m_state w))]
   \<and> read_callback (m_state (snd (stop_read res w))) = None
   \<and> fst (stop_read res w) = (if res < 0 then Inl (StreamError res) else Inr ())"
  by (simp add: stop_read_def priv_stop_read_def Let_def)

text \<open>
  C10. When \<open>stop_read\<close> fails (negative status), the state it leaves is the state it found
  with \<open>read_callback\<close> null and nothing else changed: the promise, the counter and both
  buffer collections are as before. When it succeeds, the state is the one \<open>_stop_read\<close>
  makes of that: the batch is finalised on the success path only.
\<close>

theorem stop_read_failure_frame:
  assumes "res < 0" and "0 \<le> res'"
  shows "m_state (snd (stop_read res w)) = (m_state w)\<lparr>read_callback := None\<rparr>
     \<and> read_promise (m_state (snd (stop_read res w))) = read_promise (m_state w)
     \<and> read_count (m_state (snd (stop_read res w))) = read_count (m_state w)
     \<and> idle_read_buffers (m_state (snd (stop_read res w))) = idle_read_buffers (m_state w)
     \<and> active_read_buffers (m_state (snd (stop_read res w))) = active_read_buffers (m_state w)
     \<and> m_state (snd (stop_read res' w)) = priv_stop_read ((m_state w)\<lparr>read_callback := None\<rparr>)"
  using assms by (simp add: stop_read_def Let_def)

theorem stop_read_failure_frame_witness:
  "m_state (snd (stop_read (- 1) example_stream)) =
     (m_state example_stream)\<lparr>read_callback := None\<rparr>
   \<and> read_count (m_state (snd (stop_read (- 1) example_stream))) = 5
   \<and> settled (read_promise (m_state (snd (stop_read (- 1) example_stream)))) = []
   \<and> read_count (m_state (snd (stop_read 0 example_stream))) = 0
   \<and> settled (read_promise (m_state (snd (stop_read 0 example_stream)))) = [Resolved 5]"
proof -
  have neg: "(- 1 :: int) < 0" and ok: "(0 :: int) \<le> 0"
    by simp_all
  from stop_read_failure_frame [OF neg ok, of example_stream]
  show ?thesis
    by (simp add: example_stream_def BasicStream_def priv_stop_read_def Promise_new_def
        Promise_resolve_def Promise_reset_def Let_def)
qed

text \<open>
  C8. When the reactor rejects the start request (negative status), \<open>_read\<close> throws a
  \<open>StreamError\<close> built from the status and leaves \<open>read_callback\<close> null; otherwise it
  returns the future of the state's \<open>read_promise\<close> and leaves the callback as it was.
\<close>

theorem read_start_result:
  "fst (priv_read res w) =
     (if res < 0 then Inl (StreamError res)
      else Inr (Promise_future (read_promise (m_state w))))
   \<and> read_callback (m_state (snd (priv_read res w))) =
     (if res < 0 then None else read_callback (m_state w))"
  by (simp add: priv_read_def Let_def)

section \<open>Writing\<close>

text \<open>
  C5. When the reactor accepts the submission (its status is not negative), \<open>write\<close>
  returns a future that is pending, and once the reactor reports completion with status 0
  that future is resolved with the size the buffer had when \<open>write\<close> was called.
\<close>

theorem write_round_trip:
  assumes "0 \<le> res"
  shows "\<exists>write_req. fst (stream_write buffer res w) = Inr write_req
     \<and> returned_future write_req = Pending
     \<and> returned_future (write_cb write_req 0) = Resolved (size_buf buffer)"
  using assms
  by (simp add: stream_write_def write_cb_def returned_future_def Let_def Future_then_def
      Promise_future_def Promise_new_def Promise_resolve_def)

theorem write_round_trip_witness:
  "\<exists>write_req.
     fst (stream_write \<lparr>data = 4096, size_buf = 13\<rparr> 0 example_stream) = Inr write_req
     \<and> returned_future (write_cb write_req 0) = Resolved 13"
proof -
  have ok: "(0 :: int) \<le> 0"
    by simp
  from write_round_trip [OF ok, of "\<lparr>data = 4096, size_buf = 13\<rparr>" example_stream]
  show ?thesis
    by auto
qed

text \<open>
  C6. When the reactor's status at submission is negative, \<open>write\<close> throws a \<open>StreamError\<close>
  built from it and returns no future. When the submission is accepted and the completion
  callback later reports a negative status, the future \<open>write\<close> returned is rejected with a
  \<open>StreamError\<close> built from that status.
\<close>

theorem write_failure:
  assumes "res < 0" and "0 \<le> res'" and "status < 0"
  shows "fst (stream_write buffer res w) = Inl (StreamError res)
     \<and> (\<exists>write_req. fst (stream_write buffer res' w) = Inr write_req
          \<and> returned_future (write_cb write_req status) = Rejected (StreamError status))"
  using assms
  by (simp add: stream_write_def write_cb_def returned_future_def Let_def Future_then_def
      Promise_future_def Promise_new_def Promise_reject_def)

theorem write_failure_witness:
  "fst (stream_write \<lparr>data = 4096, size_buf = 13\<rparr> (- 32) example_stream)
     = Inl (StreamError (- 32))
   \<and> (\<exists>write_req.
         fst (stream_write \<lparr>data = 4096, size_buf = 13\<rparr> 0 example_stream) = Inr write_req
         \<and> returned_future (write_cb write_req (- 104)) = Rejected (StreamError (- 104)))"
proof -
  have sub: "(- 32 :: int) < 0" and ok: "(0 :: int) \<le> 0" and fin: "(- 104 :: int) < 0"
    by simp_all
  from write_failure [OF sub ok fin, of "\<lparr>data = 4096, size_buf = 13\<rparr>" example_stream]
  show ?thesis .
qed

section \<open>The buffer pool\<close>

lemma release_scan_no_match:
  "b \<notin> data ` set rest \<Longrightarrow> release_scan b seen rest s = s"
  by (induction rest arbitrary: seen) auto

lemma release_scan_pool:
  "active_read_buffers s = seen @ rest \<Longrightarrow>
     mset (pool (release_scan b seen rest s)) = mset (pool s)"
  by (induction rest arbitrary: seen) (auto simp: pool_def)

lemma release_pool: "mset (pool (priv_release_read_buffer b s)) = mset (pool s)"
  by (simp add: priv_release_read_buffer_def release_scan_pool)

lemma mset_data_distinct:
  "mset xs = mset ys \<Longrightarrow> distinct (map data xs) = distinct (map data ys)"
  by (metis mset_map mset_eq_imp_distinct_iff)

lemma release_inv: "pool_inv (priv_release_read_buffer b s) = pool_inv s"
  unfolding pool_inv_def by (rule mset_data_distinct) (rule release_pool)

lemma acquire_pool:
  "mset (pool (snd (priv_next_read_buffer fresh s))) =
     mset (pool s) + mset (if idle_read_buffers s = [] then [Buffer_new fresh 1024] else [])"
  by (cases "idle_read_buffers s") (auto simp: priv_next_read_buffer_def pool_def Let_def)

lemma acquire_inv:
  "pool_inv s \<Longrightarrow> idle_read_buffers s \<noteq> [] \<or> fresh \<notin> data ` set (pool s) \<Longrightarrow>
     pool_inv (snd (priv_next_read_buffer fresh s))"
  by (cases "idle_read_buffers s")
     (auto simp: priv_next_read_buffer_def pool_def pool_inv_def Let_def Buffer_new_def)

lemma pool_run_inv:
  "pool_inv s \<Longrightarrow> allocator_fresh s ops \<Longrightarrow>
     pool_inv (pool_run s ops)
     \<and> mset (pool (pool_run s ops)) = mset (pool s) + mset (allocated s ops)"
proof (induction ops arbitrary: s)
  case Nil
  then show ?case by (simp add: pool_run_def)
next
  case (Cons x ops)
  show ?case
  proof (cases x)
    case (Acquire fresh)
    with Cons.prems have inv': "pool_inv (pool_step s x)"
      by (auto intro: acquire_inv)
    from Cons.prems Acquire have "allocator_fresh (pool_step s x) ops"
      by simp
    from Cons.IH [OF inv' this] Acquire show ?thesis
      by (simp add: pool_run_def acquire_pool)
  next
    case (Release b)
    with Cons.prems have inv': "pool_inv (pool_step s x)"
      by (simp add: release_inv)
    from Cons.prems Release have "allocator_fresh (pool_step s x) ops"
      by simp
    from Cons.IH [OF inv' this] Release show ?thesis
      by (simp add: pool_run_def release_pool)
  qed
qed

lemma allocator_fresh_take:
  "allocator_fresh s ops \<Longrightarrow> allocator_fresh s (take n ops)"
proof (induction ops arbitrary: s n)
  case Nil
  then show ?case by simp
next
  case (Cons x ops)
  then show ?case
    by (cases n; cases x) auto
qed

lemma pool_inv_disjoint:
  "pool_inv s \<Longrightarrow> set (idle_read_buffers s) \<inter> set (active_read_buffers s) = {}"
  by (auto simp: pool_inv_def pool_def)

text \<open>
  C2. Take a pool in which no storage address occurs twice, and any run of acquires and
  releases in which the allocator never returns the storage of a buffer the pool holds.
  After every prefix of the run no address occurs twice in \<open>idle\<close> followed by \<open>active\<close>, no
  buffer is in both collections, and the buffers of the two collections together are those
  the pool began with and those the run allocated, each once. A release whose address is
  the storage of no active buffer returns the state it was given.
\<close>

theorem buffer_pool_conservation:
  assumes "pool_inv s" and "allocator_fresh s ops"
  shows "(\<forall>n \<le> length ops.
            pool_inv (pool_run s (take n ops))
          \<and> set (idle_read_buffers (pool_run s (take n ops)))
              \<inter> set (active_read_buffers (pool_run s (take n ops))) = {}
          \<and> mset (pool (pool_run s (take n ops)))
              = mset (pool s) + mset (allocated s (take n ops)))
     \<and> (b \<notin> data ` set (active_read_buffers t) \<longrightarrow> priv_release_read_buffer b t = t)"
proof (intro conjI allI impI)
  fix n
  from assms(2) have "allocator_fresh s (take n ops)"
    by (rule allocator_fresh_take)
  from pool_run_inv [OF assms(1) this]
  show "pool_inv (pool_run s (take n ops))"
    and "mset (pool (pool_run s (take n ops))) = mset (pool s) + mset (allocated s (take n ops))"
    by simp_all
  then show "set (idle_read_buffers (pool_run s (take n ops)))
      \<inter> set (active_read_buffers (pool_run s (take n ops))) = {}"
    by (simp add: pool_inv_disjoint)
next
  assume "b \<notin> data ` set (active_read_buffers t)"
  then show "priv_release_read_buffer b t = t"
    by (simp add: priv_release_read_buffer_def release_scan_no_match)
qed

lemmas pool_eval = pool_run_def pool_def pool_inv_def priv_next_read_buffer_def
  priv_release_read_buffer_def Buffer_new_def BasicStream_def Let_def

theorem buffer_pool_conservation_witness:
  "pool_inv (pool_run (m_state (BasicStream 7))
      [Acquire 4096, Acquire 8192, Release 4096, Release 5, Acquire 12288, Acquire 12288])
   \<and> idle_read_buffers (pool_run (m_state (BasicStream 7))
      [Acquire 4096, Acquire 8192, Release 4096, Release 5, Acquire 12288, Acquire 12288]) = []
   \<and> active_read_buffers (pool_run (m_state (BasicStream 7))
      [Acquire 4096, Acquire 8192, Release 4096, Release 5, Acquire 12288, Acquire 12288])
      = [Buffer_new 8192 1024, Buffer_new 4096 1024, Buffer_new 12288 1024]
   \<and> priv_release_read_buffer 5 (pool_run (m_state (BasicStream 7)) [Acquire 4096, Acquire 8192])
      = pool_run (m_state (BasicStream 7)) [Acquire 4096, Acquire 8192]"
proof -
  let ?s = "m_state (BasicStream 7)"
  let ?ops = "[Acquire 4096, Acquire 8192, Release 4096, Release 5, Acquire 12288, Acquire 12288]"
  let ?t = "pool_run ?s [Acquire 4096, Acquire 8192]"
  have inv: "pool_inv ?s"
    by (simp add: pool_eval)
  have fresh: "allocator_fresh ?s ?ops"
    by (simp add: pool_eval)
  have nomatch: "5 \<notin> data ` set (active_read_buffers ?t)"
    by (simp add: pool_eval)
  from buffer_pool_conservation [OF inv fresh, of 5 ?t] nomatch
  have all: "\<forall>n \<le> length ?ops. pool_inv (pool_run ?s (take n ?ops))"
    and rel: "priv_release_read_buffer 5 ?t = ?t"
    by blast+
  from all have "length ?ops \<le> length ?ops \<longrightarrow> pool_inv (pool_run ?s (take (length ?ops) ?ops))"
    by (rule spec)
  then have "pool_inv (pool_run ?s ?ops)"
    by simp
  moreover have "idle_read_buffers (pool_run ?s ?ops) = []"
    by (simp add: pool_eval)
  moreover have "active_read_buffers (pool_run ?s ?ops)
      = [Buffer_new 8192 1024, Buffer_new 4096 1024, Buffer_new 12288 1024]"
    by (simp add: pool_eval)
  ultimately show ?thesis
    using rel by simp
qed

text \<open>
  C7. From an empty pool, with an allocator that returns two different addresses for two
  allocations: two acquires yield two different new buffers of 1024 bytes each, both in
  \<open>active\<close> with \<open>idle\<close> empty; releasing the first buffer's address leaves that buffer
  alone in \<open>idle\<close> and the second alone in \<open>active\<close>; a third acquire returns the
  released buffer, whatever address the allocator had on offer, and the pool still holds
  two buffers.
\<close>

theorem pool_scenario:
  assumes "idle_read_buffers s = []" and "active_read_buffers s = []" and "a1 \<noteq> a2"
  shows "let (b1, s1) = priv_next_read_buffer a1 s;
             (b2, s2) = priv_next_read_buffer a2 s1;
             s3 = priv_release_read_buffer (data b1) s2;
             (b3, s4) = priv_next_read_buffer a3 s3
         in b1 = Buffer_new a1 1024 \<and> b2 = Buffer_new a2 1024 \<and> b1 \<noteq> b2
          \<and> size_buf b1 = 1024 \<and> size_buf b2 = 1024
          \<and> active_read_buffers s2 = [b1, b2] \<and> idle_read_buffers s2 = []
          \<and> idle_read_buffers s3 = [b1] \<and> active_read_buffers s3 = [b2]
          \<and> b3 = b1 \<and> active_read_buffers s4 = [b2, b1] \<and> idle_read_buffers s4 = []"
  using assms
  by (simp add: priv_next_read_buffer_def priv_release_read_buffer_def Let_def Buffer_new_def)

theorem pool_scenario_witness:
  "let (b1, s1) = priv_next_read_buffer 4096 (m_state (BasicStream 7));
       (b2, s2) = priv_next_read_buffer 8192 s1;
       s3 = priv_release_read_buffer 4096 s2;
       (b3, s4) = priv_next_read_buffer 12288 s3
   in b1 = \<lparr>data = 4096, size_buf = 1024\<rparr> \<and> b2 = \<lparr>data = 8192, size_buf = 1024\<rparr>
    \<and> active_read_buffers s2 = [b1, b2] \<and> idle_read_buffers s2 = []
    \<and> idle_read_buffers s3 = [b1] \<and> active_read_buffers s3 = [b2]
    \<and> b3 = b1 \<and> active_read_buffers s4 = [b2, b1] \<and> idle_read_buffers s4 = []"
proof -
  have idle: "idle_read_buffers (m_state (BasicStream 7)) = []"
    and active: "active_read_buffers (m_state (BasicStream 7)) = []"
    and apart: "(4096 :: addr) \<noteq> 8192"
    by (simp_all add: BasicStream_def)
  from pool_scenario [OF idle active apart, of 12288]
  show ?thesis
    by (simp add: priv_next_read_buffer_def Buffer_new_def Let_def BasicStream_def
        split: prod.splits)
qed

section \<open>Read batches\<close>

lemma read_cb_data:
  "nread \<noteq> UV_EOF \<Longrightarrow> read_callback (m_state w) = Some f \<Longrightarrow>
   read_cb nread buffer w =
     (Inr (), w\<lparr>m_state := (m_state w)\<lparr>read_count := read_count (m_state w) + word_of_int nread\<rparr>,
               consumer := consumer w @ [(f, Buffer_view (base buffer) (word_of_int nread))]\<rparr>)"
  by (simp add: read_cb_def Let_def)

lemma read_cbs_run:
  "positive_sizes chunks \<Longrightarrow> read_callback (m_state w) = Some f \<Longrightarrow>
   read_cbs chunks w =
     (Inr (), w\<lparr>m_state := (m_state w)\<lparr>read_count := read_count (m_state w) + word_of_int (total chunks)\<rparr>,
               consumer := consumer w @ map (\<lambda>(nread, buffer). (f, Buffer_view (base buffer) (word_of_int nread))) chunks\<rparr>)"
proof (induction chunks arbitrary: w)
  case Nil
  then show ?case by (simp add: total_def)
next
  case (Cons c chunks)
  obtain nread buffer where c: "c = (nread, buffer)"
    by (cases c)
  with Cons.prems have pos: "0 < nread" and rest: "positive_sizes chunks"
    by (simp_all add: positive_sizes_def)
  from pos have "nread \<noteq> UV_EOF"
    by (simp add: UV_EOF_def)
  note step = read_cb_data [OF this Cons.prems(2), of buffer]
  let ?w = "snd (read_cb nread buffer w)"
  have cb: "read_callback (m_state ?w) = Some f"
    using Cons.prems(2) by (simp add: step)
  show ?case
    using Cons.IH [OF rest cb]
    by (simp add: c step total_def add.assoc)
qed

lemma end_batch_result:
  "successful e \<Longrightarrow> slot (read_promise (m_state w)) = Pending \<Longrightarrow>
     fst (end_batch e w) = Inr ()
   \<and> read_results (snd (end_batch e w)) = read_results w @ [Resolved (read_count (m_state w))]
   \<and> read_count (m_state (snd (end_batch e w))) = 0
   \<and> slot (read_promise (m_state (snd (end_batch e w)))) = Pending"
  by (cases e)
     (simp_all add: read_cb_def stop_read_def priv_stop_read_def Promise_resolve_def
        Promise_reset_def read_results_def Let_def)

lemma read_batch_result:
  assumes "positive_sizes chunks" and "read_callback (m_state w) = Some f"
    and "slot (read_promise (m_state w)) = Pending" and "successful e"
  shows "fst (read_batch chunks e w) = Inr ()"
    and "read_results (snd (read_batch chunks e w)) =
           read_results w @ [Resolved (read_count (m_state w) + word_of_int (total chunks))]"
    and "read_count (m_state (snd (read_batch chunks e w))) = 0"
    and "slot (read_promise (m_state (snd (read_batch chunks e w)))) = Pending"
proof -
  let ?w = "snd (read_cbs chunks w)"
  have pend: "slot (read_promise (m_state ?w)) = Pending"
    and cnt: "read_count (m_state ?w) = read_count (m_state w) + word_of_int (total chunks)"
    and res: "read_results ?w = read_results w"
    using assms(3) by (simp_all add: read_cbs_run [OF assms(1,2)] read_results_def)
  have batch: "read_batch chunks e w = end_batch e ?w"
    by (simp add: read_batch_def read_cbs_run [OF assms(1,2)])
  from end_batch_result [OF assms(4) pend]
  show "fst (read_batch chunks e w) = Inr ()"
    and "read_results (snd (read_batch chunks e w)) =
           read_results w @ [Resolved (read_count (m_state w) + word_of_int (total chunks))]"
    and "read_count (m_state (snd (read_batch chunks e w))) = 0"
    and "slot (read_promise (m_state (snd (read_batch chunks e w)))) = Pending"
    by (simp_all add: batch cnt res)
qed

text \<open>
  C1, amended. A stream is reading: its callback is set, its read promise is pending and
  its counter is 0. It receives data callbacks with positive sizes and then the batch
  ends, by end-of-file or by a \<open>stop_read\<close> the reactor accepts. No call throws, and the
  read future is resolved once more, with the sum of the sizes as a \<open>std::size_t\<close>: the
  sum modulo \<open>2 ^ 64\<close>, which is the sum itself when that is below \<open>2 ^ 64\<close>. The counter
  is 0 afterwards. When the consumer then registers a callback and a second batch runs,
  the future is resolved with the second batch's sum, whatever the first one's was.
\<close>

theorem read_accumulation:
  assumes "positive_sizes chunks" and "positive_sizes chunks'"
    and "read_callback (m_state w) = Some f"
    and "slot (read_promise (m_state w)) = Pending"
    and "read_count (m_state w) = 0"
    and "successful e" and "successful e'"
  shows "fst (read_batch chunks e w) = Inr ()
     \<and> read_results (snd (read_batch chunks e w)) =
         read_results w @ [Resolved (word_of_int (total chunks))]
     \<and> uint (word_of_int (total chunks) :: size_t) = total chunks mod 2 ^ 64
     \<and> (total chunks < 2 ^ 64 \<longrightarrow> uint (word_of_int (total chunks) :: size_t) = total chunks)
     \<and> read_count (m_state (snd (read_batch chunks e w))) = 0
     \<and> read_results (snd (read_batch chunks' e'
          ((snd (read_batch chunks e w))
             \<lparr>m_state := (m_state (snd (read_batch chunks e w)))\<lparr>read_callback := Some f'\<rparr>\<rparr>))) =
         read_results w @ [Resolved (word_of_int (total chunks)), Resolved (word_of_int (total chunks'))]"
proof -
  let ?w1 = "snd (read_batch chunks e w)"
  let ?w1' = "?w1\<lparr>m_state := (m_state ?w1)\<lparr>read_callback := Some f'\<rparr>\<rparr>"
  note first = read_batch_result [OF assms(1) assms(3) assms(4) assms(6)]
  have cb: "read_callback (m_state ?w1') = Some f'"
    and pend: "slot (read_promise (m_state ?w1')) = Pending"
    and cnt: "read_count (m_state ?w1') = 0"
    and res: "read_results ?w1' = read_results ?w1"
    using first(3,4) by (simp_all add: read_results_def)
  note second = read_batch_result [OF assms(2) cb pend assms(7)]
  have nonneg: "0 \<le> total chunks"
    using assms(1) unfolding total_def positive_sizes_def
    by (induction chunks) auto
  have fits: "total chunks < 2 ^ 64 \<longrightarrow> uint (word_of_int (total chunks) :: size_t) = total chunks"
    using nonneg by (simp add: uint_word_of_int take_bit_eq_mod)
  have modulo: "uint (word_of_int (total chunks) :: size_t) = total chunks mod 2 ^ 64"
    by (simp add: uint_word_of_int take_bit_eq_mod)
  show ?thesis
    using first(1,2,3) second(2) fits modulo
    by (simp add: assms(5) cnt res)
qed

lemmas read_eval = read_batch_def read_cb_def stop_read_def priv_stop_read_def
  Promise_resolve_def Promise_reset_def Promise_new_def read_results_def total_def
  positive_sizes_def example_start_def example_buf_def BasicStream_def UV_EOF_def
  Buffer_view_def uv_buf_init_def Let_def

theorem read_accumulation_witness:
  "read_results (snd (read_batch [(10, example_buf), (20, example_buf)] (Eof example_buf)
      example_start)) = [Resolved 30]
   \<and> read_count (m_state (snd (read_batch [(10, example_buf), (20, example_buf)]
      (Eof example_buf) example_start))) = 0
   \<and> read_results (snd (read_batch [(7, example_buf)] (Stopped 0)
        ((snd (read_batch [(10, example_buf), (20, example_buf)] (Eof example_buf) example_start))
           \<lparr>m_state := (m_state (snd (read_batch [(10, example_buf), (20, example_buf)]
               (Eof example_buf) example_start)))\<lparr>read_callback := Some 2\<rparr>\<rparr>)))
      = [Resolved 30, Resolved 7]"
proof -
  have pos: "positive_sizes [(10, example_buf), (20, example_buf)]"
    and pos': "positive_sizes [(7, example_buf)]"
    by (simp_all add: positive_sizes_def)
  have cb: "read_callback (m_state example_start) = Some 1"
    and pend: "slot (read_promise (m_state example_start)) = Pending"
    and cnt: "read_count (m_state example_start) = 0"
    by (simp_all add: example_start_def BasicStream_def Promise_new_def)
  have ok: "successful (Eof example_buf)" and ok': "successful (Stopped 0)"
    by simp_all
  have res: "read_results example_start = []"
    by (simp add: read_results_def example_start_def BasicStream_def Promise_new_def)
  from read_accumulation [OF pos pos' cb pend cnt ok ok', of 2]
  show ?thesis
    by (simp add: res total_def)
qed

lemma total_replicate: "total (replicate n (x, b)) = int n * x"
  by (simp add: total_def sum_list_replicate)

lemma positive_replicate: "0 < x \<Longrightarrow> positive_sizes (replicate n (x, b))"
  by (simp add: positive_sizes_def list_all_iff)

text \<open>
  C1 as it is stated fails where the total does not fit the counter. A stream that has
  just begun a batch receives \<open>2 ^ 54\<close> chunks of 1024 bytes, the capacity of the buffers
  the allocation callback hands out, and then end-of-file. The sizes are positive and add
  up to \<open>2 ^ 64\<close>; the read future is resolved with 0.
\<close>

theorem read_accumulation_counterexample:
  "positive_sizes (replicate (2 ^ 54) (1024, example_buf))
   \<and> total (replicate (2 ^ 54) (1024, example_buf)) = 18446744073709551616
   \<and> read_results (snd (read_batch (replicate (2 ^ 54) (1024, example_buf))
        (Eof example_buf) example_start)) = [Resolved 0]"
proof -
  have pos: "positive_sizes (replicate (2 ^ 54) (1024, example_buf))"
    by (rule positive_replicate) simp
  have cb: "read_callback (m_state example_start) = Some 1"
    and pend: "slot (read_promise (m_state example_start)) = Pending"
    and cnt: "read_count (m_state example_start) = 0"
    and res: "read_results example_start = []"
    by (simp_all add: example_start_def BasicStream_def Promise_new_def read_results_def)
  have ok: "successful (Eof example_buf)"
    by simp
  have tot: "total (replicate (2 ^ 54) (1024, example_buf)) = 18446744073709551616"
    by (simp add: total_replicate)
  have wrap: "(word_of_int 18446744073709551616 :: size_t) = 0"
    by simp
  have "read_results (snd (read_batch (replicate (2 ^ 54) (1024, example_buf))
        (Eof example_buf) example_start)) = [Resolved 0]"
    unfolding read_batch_result(2) [OF pos cb pend ok] tot cnt res wrap by simp
  with pos tot show ?thesis
    by blast
qed

section \<open>What the data callback does with an error and at end-of-file\<close>

text \<open>
  C3. The data callback compares its size with \<open>UV_EOF\<close> only. Called with \<open>- 104\<close>
  (\<open>UV_ECONNRESET\<close>) on a stream that has just begun a batch, it takes the data branch:
  the counter becomes \<open>2 ^ 64 - 104\<close>, the consumer's callback is invoked with a view of
  that size, the read future is not resolved and no libuv call is made. End-of-file on
  the same stream resolves the future and leaves the counter at 0.
\<close>

theorem negative_size_taken_as_data:
  "read_cb (- 104) example_buf example_start =
     (Inr (), example_start
        \<lparr>m_state := (m_state example_start)\<lparr>read_count := 18446744073709551512\<rparr>,
          consumer := [(1, \<lparr>data = 4096, size_buf = 18446744073709551512\<rparr>)]\<rparr>)
   \<and> read_results (snd (read_cb (- 104) example_buf example_start)) = []
   \<and> reactor (snd (read_cb (- 104) example_buf example_start)) = []
   \<and> read_results (snd (read_cb UV_EOF example_buf example_start)) = [Resolved 0]
   \<and> read_count (m_state (snd (read_cb UV_EOF example_buf example_start))) = 0"
  by (simp add: read_eval)

text \<open>
  C4. End-of-file delivered to the data callback finalises the batch and leaves
  \<open>read_callback\<close> as it was, and makes no libuv call; \<open>stop_read\<close> on the same stream
  leaves it null.
\<close>

theorem eof_keeps_read_callback:
  "read_callback (m_state (snd (read_cb UV_EOF example_buf example_start))) = Some 1
   \<and> reactor (snd (read_cb UV_EOF example_buf example_start)) = []
   \<and> read_callback (m_state (snd (stop_read 0 example_start))) = None"
  by (simp add: read_eval)

end
